theory Spec2Isabelle
  imports Main "HOL-Library.Char_ord" "HOL-Library.List_Lexorder" "HOL-Library.Multiset"
    "HOL-Library.AList"
begin

section \<open>Values of the host language\<close>

text \<open>
  Strings are lists of 8-bit characters and stand for the UTF-8 bytes of a Python
  \<open>str\<close>: \<open>s.encode()\<close> is then the identity, and the lexicographic order of
  \<open>HOL-Library.List_Lexorder\<close> over \<open>HOL-Library.Char_ord\<close> is the order
  \<open>list.sort()\<close> uses on \<open>str\<close> (UTF-8 keeps the order of code points).
\<close>

text \<open>The exceptions that the modelled code can raise or let through.\<close>

datatype exn = RequestException | KeyError | TypeError | ValueError | DatabaseError

text \<open>
  A value decoded from JSON by \<open>response.json()\<close>. \<open>JNull\<close> is Python's
  \<open>None\<close>, a \<open>JObj\<close> is a \<open>dict\<close> in insertion order. Numbers are
  integers; a number with a fractional part is outside this development.
\<close>

datatype json = JNull | JBool bool | JNum int | JStr string | JList "json list"
  | JObj "(string \<times> json) list"

text \<open>Truth value of a Python object, as \<open>if x:\<close> tests it.\<close>

fun truthy :: "json \<Rightarrow> bool" where
  "truthy JNull = False"
| "truthy (JBool b) = b"
| "truthy (JNum n) = (n \<noteq> 0)"
| "truthy (JStr s) = (s \<noteq> [])"
| "truthy (JList xs) = (xs \<noteq> [])"
| "truthy (JObj kvs) = (kvs \<noteq> [])"

text \<open>\<open>x[key]\<close> with a string key: only a \<open>dict\<close> can answer, and only for a key it has.\<close>

fun getitem :: "json \<Rightarrow> string \<Rightarrow> exn + json" where
  "getitem (JObj kvs) k = (case map_of kvs k of None \<Rightarrow> Inl KeyError | Some v \<Rightarrow> Inr v)"
| "getitem _ k = Inl TypeError"

text \<open>\<open>for row in x\<close>: a list gives its elements, a dict its keys, a string its characters.\<close>

fun py_iter :: "json \<Rightarrow> exn + json list" where
  "py_iter (JList xs) = Inr xs"
| "py_iter (JObj kvs) = Inr (map (\<lambda>kv. JStr (fst kv)) kvs)"
| "py_iter (JStr s) = Inr (map (\<lambda>c. JStr [c]) s)"
| "py_iter _ = Inl TypeError"

text \<open>\<open>x < 3\<close> on a counter value: defined on numbers (and \<open>bool\<close>, a subclass of \<open>int\<close>).\<close>

fun py_lt :: "json \<Rightarrow> int \<Rightarrow> exn + bool" where
  "py_lt (JNum n) m = Inr (n < m)"
| "py_lt (JBool b) m = Inr ((if b then 1 else 0) < m)"
| "py_lt _ m = Inl TypeError"

text \<open>\<open>str(n)\<close> for an integer: decimal digits, with a minus sign below zero.\<close>

definition digit_char :: "int \<Rightarrow> char" where
  "digit_char d = ''0123456789'' ! nat d"

function str_digits :: "int \<Rightarrow> string" where
  "str_digits n =
     (if n < 10 then [digit_char n] else str_digits (n div 10) @ [digit_char (n mod 10)])"
  by pat_completeness auto
termination
  by (relation "measure nat") auto

declare str_digits.simps [simp del]

definition str_int :: "int \<Rightarrow> string" where
  "str_int i = (if i < 0 then CHR ''-'' # str_digits (- i) else str_digits i)"

text \<open>\<open>sep.join(xs)\<close>.\<close>

fun join :: "string \<Rightarrow> string list \<Rightarrow> string" where
  "join sep [] = []"
| "join sep [x] = x"
| "join sep (x # y # ys) = x @ sep @ join sep (y # ys)"

section \<open>The HTTP layer (apis.py, BaseQuerry)\<close>

text \<open>
  What \<open>requests.get\<close> hands back: a \<open>Response\<close> with its status code and the outcome
  of \<open>.json()\<close> (\<open>None\<close> when the body does not decode and \<open>.json()\<close> raises), or no
  response at all when the transport fails and \<open>requests.get\<close> itself raises.
\<close>

record response =
  status_code :: int
  json_body :: "json option"

datatype http_outcome = Unreachable | Reply response

record request =
  req_url :: string
  req_headers :: "(string \<times> string) list option"

text \<open>The part of the outside world the code touches: the clock and the requests sent so far.\<close>

record world =
  clock :: int
  sent :: "request list"

text \<open>
  The libraries and the host the code runs on, taken as parameters: the two digest
  functions of \<open>hashlib\<close> and \<open>hmac\<close> (hex output), the network, the host's offset of
  local time from UTC at an instant, \<open>float()\<close> on a string, and the database's
  answer to writing an instance (its primary-key value, or the exception raised).
\<close>

record ('t) platform =
  md5_hex :: "string \<Rightarrow> string"
  hmac_sha256_hex :: "string \<Rightarrow> string \<Rightarrow> string"
  network :: "world \<Rightarrow> request \<Rightarrow> http_outcome"
  local_utcoffset :: "int \<Rightarrow> int"
  float_of_str :: "string \<Rightarrow> int option"
  pk_of :: "'t \<Rightarrow> exn + nat"

definition requests_get ::
  "'t platform \<Rightarrow> string \<Rightarrow> (string \<times> string) list option \<Rightarrow> world \<Rightarrow> http_outcome \<times> world" where
  "requests_get P url headers w =
     (let rq = \<lparr>req_url = url, req_headers = headers\<rparr>
      in (network P w rq, w\<lparr>sent := sent w @ [rq]\<rparr>))"

text \<open>\<open>bool(response)\<close> of the requests library: the status is not a 4xx or 5xx.\<close>

definition response_ok :: "response \<Rightarrow> bool" where
  "response_ok r = (\<not> (400 \<le> status_code r \<and> status_code r < 600))"

definition query_url ::
  "'t platform \<Rightarrow> string \<Rightarrow> (string \<times> string) list option \<Rightarrow> world
     \<Rightarrow> (exn + response option) \<times> world" where
  "query_url P url headers w =
     (case requests_get P url headers w of
        (Unreachable, w') \<Rightarrow> (Inl RequestException, w')
      | (Reply r, w') \<Rightarrow>
          if status_code r \<noteq> 200 then (Inr None, w') else (Inr (Some r), w'))"

definition query_json ::
  "'t platform \<Rightarrow> string \<Rightarrow> (string \<times> string) list option \<Rightarrow> world \<Rightarrow> (exn + json) \<times> world" where
  "query_json P url headers w =
     (case query_url P url headers w of
        (Inl e, w') \<Rightarrow> (Inl e, w')
      | (Inr None, w') \<Rightarrow> (Inr JNull, w')
      | (Inr (Some r), w') \<Rightarrow>
          if \<not> response_ok r then (Inr JNull, w')
          else (case json_body r of None \<Rightarrow> (Inr JNull, w') | Some j \<Rightarrow> (Inr j, w')))"

section \<open>The bitcoin.de session (apis.py, BCdeSession)\<close>

record session =
  c_private_key :: string
  c_public_key :: string
  api_credits :: json
  C_API_URL :: string

definition BCdeSession :: "string \<Rightarrow> string \<Rightarrow> json \<Rightarrow> session" where
  "BCdeSession public_key private_key credits =
     \<lparr>c_private_key = private_key, c_public_key = public_key, api_credits = credits,
      C_API_URL = ''https://api.bitcoin.de/v2''\<rparr>"

text \<open>
  \<open>post_params\<close> is \<open>None\<close> or a dict, given by its items with key and value already
  rendered by \<open>str\<close>.
\<close>

definition generate_api_signature ::
  "'t platform \<Rightarrow> session \<Rightarrow> string \<Rightarrow> string \<Rightarrow> string \<Rightarrow> (string \<times> string) list option
     \<Rightarrow> string" where
  "generate_api_signature P self method url nonce post_params =
     (let sorted_params =
            (case post_params of
               None \<Rightarrow> []
             | Some items \<Rightarrow>
                 if items = [] then []
                 else sort (map (\<lambda>kv. fst kv @ ''='' @ snd kv) items));
          query_string = join ''?'' sorted_params;
          hashed_query_string = md5_hex P query_string;
          hmac_data = method @ ''#'' @ url @ ''#'' @ c_public_key self @ ''#'' @ nonce @ ''#''
                        @ hashed_query_string
      in hmac_sha256_hex P (c_private_key self) hmac_data)"


text \<open>
  \<open>query\<close>: throttle on a low counter, sign the request, fetch, and take the quota over
  from the reply. \<open>time.sleep(3)\<close> moves the clock on by three seconds;
  \<open>headers[k] = v\<close> is the update of the association list.
\<close>

definition query ::
  "'t platform \<Rightarrow> session \<Rightarrow> string \<Rightarrow> string \<Rightarrow> (string \<times> string) list option
     \<Rightarrow> (string \<times> string) list option \<Rightarrow> world \<Rightarrow> (exn + json) \<times> session \<times> world" where
  "query P self url method post_params headers w =
     (let headers0 = (case headers of None \<Rightarrow> [] | Some hs \<Rightarrow> hs)
      in case py_lt (api_credits self) 3 of
           Inl e \<Rightarrow> (Inl e, self, w)
         | Inr low \<Rightarrow>
             (let w1 = (if low then w\<lparr>clock := clock w + 3\<rparr> else w);
                  headers1 = AList.update ''X-API-KEY'' (c_public_key self) headers0;
                  nonce = str_int (clock w1);
                  headers2 = AList.update ''X-API-NONCE'' nonce headers1;
                  headers3 = AList.update ''X-API-SIGNATURE''
                               (generate_api_signature P self method url nonce post_params) headers2
              in case query_json P url (Some headers3) w1 of
                   (Inl e, w2) \<Rightarrow> (Inl e, self, w2)
                 | (Inr response, w2) \<Rightarrow>
                     if truthy response then
                       (case getitem response ''credits'' of
                          Inl e \<Rightarrow> (Inl e, self, w2)
                        | Inr c \<Rightarrow> (Inr response, self\<lparr>api_credits := c\<rparr>, w2))
                     else (Inr response, self, w2)))"

text \<open>
  The URL that \<open>get_public_trade_history\<close> builds before it calls \<open>query\<close>
  (its first four lines); \<open>since_tid\<close> is \<open>None\<close> or an integer.
\<close>

definition trade_history_url :: "session \<Rightarrow> int option \<Rightarrow> string \<Rightarrow> string" where
  "trade_history_url self since_tid pair =
     (let url = C_API_URL self @ ''/trades/history?trading_pair='' @ pair
      in case since_tid of
           None \<Rightarrow> url
         | Some n \<Rightarrow> if n \<noteq> 0 then url @ ''&since_tid='' @ str_int n else url)"

definition get_public_trade_history ::
  "'t platform \<Rightarrow> session \<Rightarrow> int option \<Rightarrow> string \<Rightarrow> world \<Rightarrow> (exn + json) \<times> session \<times> world" where
  "get_public_trade_history P self since_tid pair w =
     query P self (trade_history_url self since_tid pair) ''GET'' None None w"

section \<open>The Shapeshift client (apis.py, Shapeshift)\<close>

record shapeshift =
  API_BASE_URL :: string
  api_key :: "string option"

definition Shapeshift :: "string option \<Rightarrow> shapeshift" where
  "Shapeshift key = \<lparr>API_BASE_URL = ''https://shapeshift.io'', api_key = key\<rparr>"

text \<open>\<open>max_trans not in range(51)\<close>: \<open>range(51)\<close> holds the integers from 0 to 50.\<close>

definition recent_tx ::
  "'t platform \<Rightarrow> shapeshift \<Rightarrow> int \<Rightarrow> world \<Rightarrow> (exn + json) \<times> world" where
  "recent_tx P self max_trans w =
     (if \<not> (0 \<le> max_trans \<and> max_trans < 51) then (Inr JNull, w)
      else query_json P (API_BASE_URL self @ ''/recenttx/'' @ str_int max_trans) None w)"

section \<open>The ingesting view (views.py, data)\<close>

text \<open>
  A \<open>datetime\<close> is held by the number of seconds its calendar fields lie after
  1970-01-01 00:00:00; a naive one is that number alone, an aware one carries its offset
  from UTC as well, and denotes the instant \<open>wall - offset\<close>. \<open>datetime.fromtimestamp(t)\<close>
  without a timezone gives the naive local time of the host, and raises when the local
  year falls outside 1 to 9999 (\<open>ValueError\<close>, or \<open>OverflowError\<close> or \<open>OSError\<close>
  where the platform's \<open>localtime\<close> gives up first; one exception stands for the three).
  The bounds are 0001-01-01 00:00:00 and 9999-12-31 23:59:59 in seconds.
  \<open>replace(tzinfo=timezone.utc)\<close> attaches offset zero to the fields as they are.
\<close>

record aware_datetime =
  wall :: int
  utcoffset :: int

definition instant :: "aware_datetime \<Rightarrow> int" where
  "instant d = wall d - utcoffset d"

definition fromtimestamp :: "'t platform \<Rightarrow> int \<Rightarrow> exn + int" where
  "fromtimestamp P t =
     (let local = t + local_utcoffset P t
      in if local < - 62135596800 \<or> 253402300799 < local then Inl ValueError
         else Inr local)"

definition replace_tzinfo_utc :: "int \<Rightarrow> aware_datetime" where
  "replace_tzinfo_utc naive = \<lparr>wall = naive, utcoffset = 0\<rparr>"

text \<open>
  \<open>float(x)\<close> on a decoded value. Timestamps are whole seconds; what \<open>float\<close> makes
  of a string is the platform's answer.
\<close>

fun py_float :: "'t platform \<Rightarrow> json \<Rightarrow> exn + int" where
  "py_float P (JNum n) = Inr n"
| "py_float P (JBool b) = Inr (if b then 1 else 0)"
| "py_float P (JStr s) = (case float_of_str P s of None \<Rightarrow> Inl ValueError | Some n \<Rightarrow> Inr n)"
| "py_float P _ = Inl TypeError"

text \<open>
  An instance of the model class the view saves. The class \<open>Transaction\<close> that views.py
  imports is not in models.py; its fields are those of \<open>BitcoinDe\<close> there, with \<open>tid\<close>
  the primary key.
\<close>

record transaction =
  t_tid :: json
  t_date :: aware_datetime
  t_price :: json
  t_amount :: json
  t_trading_pair :: json

text \<open>
  The body of the loop up to the constructor call: the subscripts and conversions in the
  order Python evaluates them.
\<close>

definition make_transaction ::
  "transaction platform \<Rightarrow> json \<Rightarrow> json \<Rightarrow> exn + transaction" where
  "make_transaction P new_trades row =
     (case getitem row ''date'' of Inl e \<Rightarrow> Inl e | Inr d \<Rightarrow>
      case py_float P d of Inl e \<Rightarrow> Inl e | Inr t \<Rightarrow>
      case fromtimestamp P t of Inl e \<Rightarrow> Inl e | Inr timestamp \<Rightarrow>
      case getitem row ''tid'' of Inl e \<Rightarrow> Inl e | Inr tid \<Rightarrow>
      case getitem row ''price'' of Inl e \<Rightarrow> Inl e | Inr price \<Rightarrow>
      case getitem row ''amount'' of Inl e \<Rightarrow> Inl e | Inr amount \<Rightarrow>
      case getitem new_trades ''trading_pair'' of Inl e \<Rightarrow> Inl e | Inr pair \<Rightarrow>
      Inr \<lparr>t_tid = tid, t_date = replace_tzinfo_utc timestamp, t_price = price,
           t_amount = amount, t_trading_pair = pair\<rparr>)"

text \<open>
  The table, one entry per stored row, under its primary-key value. \<open>Model.save()\<close> of an
  instance whose primary key is set updates the row with that key and inserts one when no
  row was updated.
\<close>

type_synonym table = "(nat \<times> transaction) list"

definition upsert :: "nat \<Rightarrow> transaction \<Rightarrow> table \<Rightarrow> table" where
  "upsert k t tbl =
     (if k \<in> set (map fst tbl)
      then map (\<lambda>kr. if fst kr = k then (k, t) else kr) tbl
      else tbl @ [(k, t)])"

definition save :: "transaction platform \<Rightarrow> transaction \<Rightarrow> table \<Rightarrow> exn + table" where
  "save P t tbl =
     (case pk_of P t of
        Inl e \<Rightarrow> Inl e
      | Inr k \<Rightarrow> Inr (upsert k t tbl))"

text \<open>
  The \<open>for\<close> loop over the rows. On an exception it stops and hands back the exception
  together with the table as written so far.
\<close>

fun insert_rows ::
  "transaction platform \<Rightarrow> json \<Rightarrow> json list \<Rightarrow> table \<Rightarrow> exn option \<times> table" where
  "insert_rows P new_trades [] tbl = (None, tbl)"
| "insert_rows P new_trades (row # rows) tbl =
     (case make_transaction P new_trades row of
        Inl e \<Rightarrow> (Some e, tbl)
      | Inr t \<Rightarrow>
          (case save P t tbl of
             Inl e \<Rightarrow> (Some e, tbl)
           | Inr tbl' \<Rightarrow> insert_rows P new_trades rows tbl'))"

definition persist_loop :: "transaction platform \<Rightarrow> json \<Rightarrow> table \<Rightarrow> exn option \<times> table" where
  "persist_loop P new_trades tbl =
     (case getitem new_trades ''trades'' of
        Inl e \<Rightarrow> (Some e, tbl)
      | Inr trades \<Rightarrow>
          (case py_iter trades of
             Inl e \<Rightarrow> (Some e, tbl)
           | Inr rows \<Rightarrow> insert_rows P new_trades rows tbl))"

text \<open>
  \<open>with transaction.atomic():\<close> an exception leaving the block rolls the table back to
  what it was on entry and is raised again.
\<close>

definition atomic :: "(table \<Rightarrow> exn option \<times> table) \<Rightarrow> table \<Rightarrow> exn option \<times> table" where
  "atomic body tbl =
     (case body tbl of
        (Some e, _) \<Rightarrow> (Some e, tbl)
      | (None, tbl') \<Rightarrow> (None, tbl'))"

definition persist :: "transaction platform \<Rightarrow> json \<Rightarrow> table \<Rightarrow> exn option \<times> table" where
  "persist P new_trades tbl = atomic (persist_loop P new_trades) tbl"

text \<open>
  \<open>aggregate(Max('tid'))['tid__max']\<close>: the largest key, \<open>None\<close> on an empty table (the
  dict that \<open>aggregate\<close> returns is never empty, so the \<open>if\<close> around the subscript
  always takes it).
\<close>

definition max_tid :: "table \<Rightarrow> int option" where
  "max_tid tbl = (if tbl = [] then None else Some (int (Max (set (map fst tbl)))))"

text \<open>
  The ingesting part of the view \<open>data\<close> (its lines up to the end of the
  \<open>with\<close> block), for the submitted form \<open>post\<close> (one value per field): what it
  raises (if anything), and the table and the world it leaves. The session is built with
  the default quota of 20. The rest of the view reads the table and renders it; it writes
  nothing and is not part of this definition, so an exception of \<open>data\<close> below is one
  raised while ingesting.
\<close>

definition data ::
  "transaction platform \<Rightarrow> (string \<times> string) list \<Rightarrow> table \<Rightarrow> world
     \<Rightarrow> exn option \<times> table \<times> world" where
  "data P post tbl w =
     (if post = [] then (None, tbl, w)
      else case map_of post ''key'' of
        None \<Rightarrow> (Some KeyError, tbl, w)
      | Some key \<Rightarrow>
          if key = [] then (None, tbl, w)
          else case map_of post ''sec'' of
            None \<Rightarrow> (Some KeyError, tbl, w)
          | Some sec \<Rightarrow>
              if sec = [] then (None, tbl, w)
              else
                (let api = BCdeSession key sec (JNum 20)
                 in case get_public_trade_history P api (max_tid tbl) ''btceur'' w of
                      (Inl e, api', w') \<Rightarrow> (Some e, tbl, w')
                    | (Inr new_trades, api', w') \<Rightarrow>
                        if truthy new_trades
                        then (case persist P new_trades tbl of (e, tbl') \<Rightarrow> (e, tbl', w'))
                        else (None, tbl, w')))"

text \<open>
  The canonical query string in the words of the specification: the given strings with a
  \<open>?\<close> between neighbours, and the empty string for no strings. It is written without
  \<open>join\<close>, to compare the signer against.
\<close>

definition canonical_query_string :: "string list \<Rightarrow> string" where
  "canonical_query_string ys =
     (case ys of [] \<Rightarrow> [] | y # rest \<Rightarrow> y @ concat (map (\<lambda>z. CHR ''?'' # z) rest))"

text \<open>The instant stored for one upstream row, or the exception that building it raises.\<close>

definition stored_instant :: "transaction platform \<Rightarrow> json \<Rightarrow> json \<Rightarrow> exn + int" where
  "stored_instant P new_trades row =
     (case make_transaction P new_trades row of
        Inl e \<Rightarrow> Inl e
      | Inr t \<Rightarrow> Inr (instant (t_date t)))"

text \<open>
  A caller that issues one \<open>query\<close> after the other on the same session, going on after
  an exception as a caller that catches it would.
\<close>

fun query_calls ::
  "'t platform \<Rightarrow> session
     \<Rightarrow> (string \<times> string \<times> (string \<times> string) list option \<times> (string \<times> string) list option) list
     \<Rightarrow> world \<Rightarrow> session \<times> world" where
  "query_calls P self [] w = (self, w)"
| "query_calls P self (c # cs) w =
     (case c of (url, method, post_params, headers) \<Rightarrow>
        (case query P self url method post_params headers w of
           (res, self', w') \<Rightarrow> query_calls P self' cs w'))"

text \<open>A quota value that is a number not below zero.\<close>

fun credits_nonneg :: "json \<Rightarrow> bool" where
  "credits_nonneg (JNum n) = (0 \<le> n)"
| "credits_nonneg (JBool b) = True"
| "credits_nonneg _ = False"

text \<open>
  Two notions for reasoning about the loop: the writes of a run as a list of keyed
  instances applied in order, and a table with the values of some keys replaced.
\<close>

fun upserts :: "(nat \<times> transaction) list \<Rightarrow> table \<Rightarrow> table" where
  "upserts [] tbl = tbl"
| "upserts (kr # krs) tbl = upserts krs (upsert (fst kr) (snd kr) tbl)"

definition overlay :: "(nat \<rightharpoonup> transaction) \<Rightarrow> table \<Rightarrow> table" where
  "overlay m tbl = map (\<lambda>kr. case m (fst kr) of None \<Rightarrow> kr | Some t \<Rightarrow> (fst kr, t)) tbl"

section \<open>Concrete hosts and servers for evaluation\<close>

text \<open>
  Stand-ins for the parameters, used where a statement is evaluated on a concrete input:
  a network that is down, one that answers every request with the same reply, hosts on
  UTC and one hour east of it, and a database that takes a non-negative integer
  \<open>tid\<close> as the key. The digests are replaced by transparent functions; no statement
  below depends on them.
\<close>

definition net_down :: "world \<Rightarrow> request \<Rightarrow> http_outcome" where
  "net_down w rq = Unreachable"

definition net_reply :: "response \<Rightarrow> world \<Rightarrow> request \<Rightarrow> http_outcome" where
  "net_reply r w rq = Reply r"

definition tz_utc :: "int \<Rightarrow> int" where
  "tz_utc t = 0"

definition tz_cet :: "int \<Rightarrow> int" where
  "tz_cet t = 3600"

definition no_float :: "string \<Rightarrow> int option" where
  "no_float s = None"

definition tid_key :: "transaction \<Rightarrow> exn + nat" where
  "tid_key t = (case t_tid t of
                  JNum n \<Rightarrow> if 0 \<le> n then Inr (nat n) else Inl DatabaseError
                | _ \<Rightarrow> Inl DatabaseError)"

definition plain_md5 :: "string \<Rightarrow> string" where
  "plain_md5 s = ''md5:'' @ s"

definition plain_hmac :: "string \<Rightarrow> string \<Rightarrow> string" where
  "plain_hmac k m = ''hmac:'' @ k @ '':'' @ m"

definition host :: "(world \<Rightarrow> request \<Rightarrow> http_outcome) \<Rightarrow> (int \<Rightarrow> int) \<Rightarrow> transaction platform" where
  "host net tz =
     \<lparr>md5_hex = plain_md5, hmac_sha256_hex = plain_hmac, network = net,
      local_utcoffset = tz, float_of_str = no_float, pk_of = tid_key\<rparr>"

definition w0 :: world where
  "w0 = \<lparr>clock = 1500000000, sent = []\<rparr>"

definition reply_500 :: response where
  "reply_500 = \<lparr>status_code = 500, json_body = None\<rparr>"

definition reply_garbled :: response where
  "reply_garbled = \<lparr>status_code = 200, json_body = None\<rparr>"

definition reply_credits :: "int \<Rightarrow> response" where
  "reply_credits n = \<lparr>status_code = 200, json_body = Some (JObj [(''credits'', JNum n)])\<rparr>"

definition reply_no_credits :: response where
  "reply_no_credits = \<lparr>status_code = 200, json_body = Some (JObj [(''errors'', JList [])])\<rparr>"

definition trade :: "int \<Rightarrow> int \<Rightarrow> json" where
  "trade i t = JObj [(''date'', JNum t), (''price'', JNum 230), (''amount'', JNum 2), (''tid'', JNum i)]"

definition batch :: "json list \<Rightarrow> json" where
  "batch rows = JObj [(''credits'', JNum 19), (''trading_pair'', JStr ''btceur''), (''trades'', JList rows)]"

definition stored :: "int \<Rightarrow> int \<Rightarrow> nat \<times> transaction" where
  "stored i t =
     (nat i, \<lparr>t_tid = JNum i, t_date = \<lparr>wall = t, utcoffset = 0\<rparr>, t_price = JNum 230,
               t_amount = JNum 2, t_trading_pair = JStr ''btceur''\<rparr>)"


section \<open>Facts about the HTTP layer and \<open>query\<close>\<close>

lemma query_json_sent:
  "sent (snd (query_json P url hs w)) = sent w @ [\<lparr>req_url = url, req_headers = hs\<rparr>]"
  by (simp add: query_json_def query_url_def requests_get_def Let_def
      split: http_outcome.split option.split)

lemma query_json_clock: "clock (snd (query_json P url hs w)) = clock w"
  by (simp add: query_json_def query_url_def requests_get_def Let_def
      split: http_outcome.split option.split)

lemma query_raises_early:
  "py_lt (api_credits self) 3 = Inl e \<Longrightarrow>
     query P self url method post_params headers w = (Inl e, self, w)"
  by (simp add: query_def)

text \<open>
  Once the comparison of the counter has gone through, \<open>query\<close> is one call of
  \<open>query_json\<close> (with some headers, in a world that has sent nothing more) followed by
  the bookkeeping of the quota.
\<close>

lemma query_unfold:
  assumes "py_lt (api_credits self) 3 = Inr low"
  obtains hs w1 r w2 where
    "sent w1 = sent w"
    "query_json P url (Some hs) w1 = (r, w2)"
    "query P self url method post_params headers w =
       (case r of
          Inl e \<Rightarrow> (Inl e, self, w2)
        | Inr response \<Rightarrow>
            if truthy response then
              (case getitem response ''credits'' of
                 Inl e \<Rightarrow> (Inl e, self, w2)
               | Inr c \<Rightarrow> (Inr response, self\<lparr>api_credits := c\<rparr>, w2))
            else (Inr response, self, w2))"
proof -
  define w1 where "w1 = (if low then w\<lparr>clock := clock w + 3\<rparr> else w)"
  define hs where "hs = AList.update ''X-API-SIGNATURE''
       (generate_api_signature P self method url (str_int (clock w1)) post_params)
       (AList.update ''X-API-NONCE'' (str_int (clock w1))
          (AList.update ''X-API-KEY'' (c_public_key self)
             (case headers of None \<Rightarrow> [] | Some hs \<Rightarrow> hs)))"
  obtain r w2 where qj: "query_json P url (Some hs) w1 = (r, w2)"
    by (cases "query_json P url (Some hs) w1")
  have s: "sent w1 = sent w" by (simp add: w1_def)
  have "query P self url method post_params headers w =
       (case query_json P url (Some hs) w1 of (r, w2) \<Rightarrow>
       (case r of
          Inl e \<Rightarrow> (Inl e, self, w2)
        | Inr response \<Rightarrow>
            if truthy response then
              (case getitem response ''credits'' of
                 Inl e \<Rightarrow> (Inl e, self, w2)
               | Inr c \<Rightarrow> (Inr response, self\<lparr>api_credits := c\<rparr>, w2))
            else (Inr response, self, w2)))"
    unfolding query_def Let_def assms hs_def w1_def sum.case
    by (simp split: prod.split sum.split)
  then show thesis using that [OF s qj] by (simp add: qj)
qed

lemma query_sent:
  assumes "py_lt (api_credits self) 3 = Inr low"
  shows "map req_url (sent (snd (snd (query P self url method post_params headers w))))
           = map req_url (sent w) @ [url]"
proof -
  from assms obtain hs w1 r w2 where
    s: "sent w1 = sent w" and qj: "query_json P url (Some hs) w1 = (r, w2)" and
    q: "query P self url method post_params headers w =
       (case r of
          Inl e \<Rightarrow> (Inl e, self, w2)
        | Inr response \<Rightarrow>
            if truthy response then
              (case getitem response ''credits'' of
                 Inl e \<Rightarrow> (Inl e, self, w2)
               | Inr c \<Rightarrow> (Inr response, self\<lparr>api_credits := c\<rparr>, w2))
            else (Inr response, self, w2))"
    by (rule query_unfold)
  have w2: "snd (snd (query P self url method post_params headers w)) = w2"
    unfolding q by (simp split: sum.split)
  have "sent w2 = sent w1 @ [\<lparr>req_url = url, req_headers = Some hs\<rparr>]"
    using query_json_sent [of P url "Some hs" w1] by (simp add: qj)
  then show ?thesis by (simp add: w2 s)
qed

lemma py_lt_cases:
  obtains (num) low where "py_lt c m = Inr low" | (other) "py_lt c m = Inl TypeError"
  by (cases c) auto

lemma query_json_ok:
  "network P w \<lparr>req_url = url, req_headers = hs\<rparr> = Reply r \<Longrightarrow> status_code r = 200 \<Longrightarrow>
     json_body r = Some j \<Longrightarrow> fst (query_json P url hs w) = Inr j"
  by (simp add: query_json_def query_url_def requests_get_def response_ok_def)

lemma query_json_origin:
  "query_json P url hs w = (Inr j, w2) \<Longrightarrow>
     j = JNull \<or> (\<exists>r. network P w \<lparr>req_url = url, req_headers = hs\<rparr> = Reply r
                      \<and> json_body r = Some j)"
  by (auto simp: query_json_def query_url_def requests_get_def Let_def
      split: http_outcome.splits option.splits if_splits)

lemma query_keeps_nonneg:
  assumes "credits_nonneg (api_credits self)"
    and "\<forall>w1 rq r kvs c. network P w1 rq = Reply r \<longrightarrow> json_body r = Some (JObj kvs) \<longrightarrow>
           map_of kvs ''credits'' = Some c \<longrightarrow> credits_nonneg c"
  shows "credits_nonneg (api_credits (fst (snd (query P self url method post_params headers w))))"
proof (cases "api_credits self" "3::int" rule: py_lt_cases)
  case other
  then show ?thesis using assms(1) by (simp add: query_raises_early)
next
  case (num low)
  then obtain hs w1 r' w2 where
    qj: "query_json P url (Some hs) w1 = (r', w2)" and
    q: "query P self url method post_params headers w =
       (case r' of
          Inl e \<Rightarrow> (Inl e, self, w2)
        | Inr response \<Rightarrow>
            if truthy response then
              (case getitem response ''credits'' of
                 Inl e \<Rightarrow> (Inl e, self, w2)
               | Inr c \<Rightarrow> (Inr response, self\<lparr>api_credits := c\<rparr>, w2))
            else (Inr response, self, w2))"
    by (rule query_unfold)
  show ?thesis
  proof (cases r')
    case (Inl e)
    then show ?thesis unfolding q using assms(1) by simp
  next
    case (Inr response)
    show ?thesis
    proof (cases "truthy response")
      case False
      then show ?thesis unfolding q Inr using assms(1) by simp
    next
      case True
      show ?thesis
      proof (cases "getitem response ''credits''")
        case (Inl e)
        then show ?thesis unfolding q Inr using assms(1) True by simp
      next
        case c: (Inr c)
        then obtain kvs where kvs: "response = JObj kvs" "map_of kvs ''credits'' = Some c"
          by (cases response) (auto split: option.splits)
        from qj Inr True obtain r where
          "network P w1 \<lparr>req_url = url, req_headers = Some hs\<rparr> = Reply r"
          "json_body r = Some response"
          using query_json_origin [of P url "Some hs" w1 response w2] by auto
        with kvs assms(2) have "credits_nonneg c" by blast
        then show ?thesis unfolding q Inr using True c by simp
      qed
    qed
  qed
qed

section \<open>The signer\<close>

lemma join_canonical: "join ''?'' ys = canonical_query_string ys"
  by (induction "''?''" ys rule: join.induct) (simp_all add: canonical_query_string_def)

lemma sorted_rearrangement_is_sort:
  fixes ys :: "string list"
  shows "sorted ys \<Longrightarrow> mset ys = mset xs \<Longrightarrow> sort xs = ys"
  by (rule properties_for_sort) simp_all

text \<open>
  C1. \<open>generate_api_signature\<close> returns the HMAC-SHA256 hex digest, keyed by the private
  key, of \<open>METHOD#URL#PUBLIC_KEY#NONCE#H\<close>, where \<open>H\<close> is the MD5 hex digest of the
  canonical query string: the parameters rendered as \<open>key=value\<close>, in sorted order,
  with \<open>?\<close> between them. The rendered strings have a sorted rearrangement, and whatever
  sorted rearrangement is taken, the signature is the digest over its canonical query
  string; with the mapping absent or empty that string is empty.
\<close>

theorem generate_api_signature_canonical:
  "(\<exists>ys. sorted ys
      \<and> mset ys = mset (map (\<lambda>kv. fst kv @ ''='' @ snd kv)
                         (case post_params of None \<Rightarrow> [] | Some items \<Rightarrow> items)))
   \<and> (\<forall>ys. sorted ys
          \<and> mset ys = mset (map (\<lambda>kv. fst kv @ ''='' @ snd kv)
                             (case post_params of None \<Rightarrow> [] | Some items \<Rightarrow> items))
        \<longrightarrow> generate_api_signature P self method url nonce post_params =
              hmac_sha256_hex P (c_private_key self)
                (method @ ''#'' @ url @ ''#'' @ c_public_key self @ ''#'' @ nonce @ ''#''
                   @ md5_hex P (canonical_query_string ys)))
   \<and> generate_api_signature P self method url nonce None =
         hmac_sha256_hex P (c_private_key self)
           (method @ ''#'' @ url @ ''#'' @ c_public_key self @ ''#'' @ nonce @ ''#''
              @ md5_hex P [])
   \<and> generate_api_signature P self method url nonce (Some []) =
         hmac_sha256_hex P (c_private_key self)
           (method @ ''#'' @ url @ ''#'' @ c_public_key self @ ''#'' @ nonce @ ''#''
              @ md5_hex P [])"
proof (intro conjI allI impI)
  let ?rendered = "map (\<lambda>kv. fst kv @ ''='' @ snd kv)
                     (case post_params of None \<Rightarrow> [] | Some items \<Rightarrow> items)"
  have "sorted (sort ?rendered) \<and> mset (sort ?rendered) = mset ?rendered" by simp
  then show "\<exists>ys. sorted ys \<and> mset ys = mset ?rendered" by blast
next
  fix ys
  let ?rendered = "map (\<lambda>kv. fst kv @ ''='' @ snd kv)
                     (case post_params of None \<Rightarrow> [] | Some items \<Rightarrow> items)"
  assume "sorted ys \<and> mset ys = mset ?rendered"
  then have ys: "sort ?rendered = ys" by (intro sorted_rearrangement_is_sort) simp_all
  have "generate_api_signature P self method url nonce post_params =
          hmac_sha256_hex P (c_private_key self)
            (method @ ''#'' @ url @ ''#'' @ c_public_key self @ ''#'' @ nonce @ ''#''
               @ md5_hex P (join ''?'' (sort ?rendered)))"
    by (cases post_params) (simp_all add: generate_api_signature_def)
  then show "generate_api_signature P self method url nonce post_params =
          hmac_sha256_hex P (c_private_key self)
            (method @ ''#'' @ url @ ''#'' @ c_public_key self @ ''#'' @ nonce @ ''#''
               @ md5_hex P (canonical_query_string ys))"
    by (simp only: join_canonical ys)
qed (simp_all add: generate_api_signature_def)

theorem generate_api_signature_canonical_witness:
  "sorted [''a=1'', ''b=2'']
   \<and> mset [''a=1'', ''b=2''] = mset [''b=2'', ''a=1'']
   \<and> generate_api_signature (host net_down tz_utc) (BCdeSession ''pub'' ''priv'' (JNum 20))
         ''GET'' ''u'' ''1'' (Some [(''b'', ''2''), (''a'', ''1'')])
       = ''hmac:priv:GET#u#pub#1#md5:a=1?b=2''
   \<and> generate_api_signature (host net_down tz_utc) (BCdeSession ''pub'' ''priv'' (JNum 20))
         ''GET'' ''u'' ''1'' None
       = ''hmac:priv:GET#u#pub#1#md5:''"
proof -
  have srt: "sorted [''a=1'', ''b=2'']" by code_simp
  have perm: "mset [''a=1'', ''b=2''] = mset [''b=2'', ''a=1'']" by simp
  have hyp: "sorted [''a=1'', ''b=2'']
     \<and> mset [''a=1'', ''b=2'']
         = mset (map (\<lambda>kv. fst kv @ ''='' @ snd kv)
                  (case Some [(''b'', ''2''), (''a'', ''1'')] of None \<Rightarrow> [] | Some items \<Rightarrow> items))"
    using srt by simp
  note t = generate_api_signature_canonical
    [of "Some [(''b'', ''2''), (''a'', ''1'')]" "host net_down tz_utc"
        "BCdeSession ''pub'' ''priv'' (JNum 20)" "''GET''" "''u''" "''1''"]
  from t have
    "\<forall>ys. sorted ys
          \<and> mset ys = mset (map (\<lambda>kv. fst kv @ ''='' @ snd kv)
                             (case Some [(''b'', ''2''), (''a'', ''1'')] of
                                None \<Rightarrow> [] | Some items \<Rightarrow> items))
        \<longrightarrow> generate_api_signature (host net_down tz_utc)
              (BCdeSession ''pub'' ''priv'' (JNum 20)) ''GET'' ''u'' ''1''
              (Some [(''b'', ''2''), (''a'', ''1'')]) =
              hmac_sha256_hex (host net_down tz_utc)
                (c_private_key (BCdeSession ''pub'' ''priv'' (JNum 20)))
                (''GET'' @ ''#'' @ ''u'' @ ''#''
                   @ c_public_key (BCdeSession ''pub'' ''priv'' (JNum 20)) @ ''#'' @ ''1'' @ ''#''
                   @ md5_hex (host net_down tz_utc) (canonical_query_string ys))"
    by blast
  with hyp have full: "generate_api_signature (host net_down tz_utc)
              (BCdeSession ''pub'' ''priv'' (JNum 20)) ''GET'' ''u'' ''1''
              (Some [(''b'', ''2''), (''a'', ''1'')]) =
              hmac_sha256_hex (host net_down tz_utc)
                (c_private_key (BCdeSession ''pub'' ''priv'' (JNum 20)))
                (''GET'' @ ''#'' @ ''u'' @ ''#''
                   @ c_public_key (BCdeSession ''pub'' ''priv'' (JNum 20)) @ ''#'' @ ''1'' @ ''#''
                   @ md5_hex (host net_down tz_utc)
                       (canonical_query_string [''a=1'', ''b=2'']))"
    by blast
  from t have none: "generate_api_signature (host net_down tz_utc)
              (BCdeSession ''pub'' ''priv'' (JNum 20)) ''GET'' ''u'' ''1'' None =
              hmac_sha256_hex (host net_down tz_utc)
                (c_private_key (BCdeSession ''pub'' ''priv'' (JNum 20)))
                (''GET'' @ ''#'' @ ''u'' @ ''#''
                   @ c_public_key (BCdeSession ''pub'' ''priv'' (JNum 20)) @ ''#'' @ ''1'' @ ''#''
                   @ md5_hex (host net_down tz_utc) [])"
    by blast
  have a: "generate_api_signature (host net_down tz_utc) (BCdeSession ''pub'' ''priv'' (JNum 20))
         ''GET'' ''u'' ''1'' (Some [(''b'', ''2''), (''a'', ''1'')])
       = ''hmac:priv:GET#u#pub#1#md5:a=1?b=2''"
    unfolding full
    by (simp add: host_def BCdeSession_def plain_hmac_def plain_md5_def canonical_query_string_def)
  have b: "generate_api_signature (host net_down tz_utc) (BCdeSession ''pub'' ''priv'' (JNum 20))
         ''GET'' ''u'' ''1'' None
       = ''hmac:priv:GET#u#pub#1#md5:''"
    unfolding none
    by (simp add: host_def BCdeSession_def plain_hmac_def plain_md5_def)
  from srt perm a b show ?thesis by blast
qed

lemma join_example: "join ''?'' [''a=1'', ''b=2'', ''c=3''] = ''a=1?b=2?c=3''"
  by simp

section \<open>The request for the trade history\<close>

text \<open>
  C4. With no high-water mark, or with the mark 0, the URL that
  \<open>get_public_trade_history\<close> requests is the endpoint with the \<open>trading_pair\<close> and
  nothing else; with a mark \<open>n > 0\<close> it is that URL followed by \<open>&since_tid=n\<close>.
  The URL is the one of the request sent (whenever the counter is a number, so that
  \<open>query\<close> gets as far as sending).
\<close>

theorem trade_history_request_url:
  "trade_history_url self None pair = C_API_URL self @ ''/trades/history?trading_pair='' @ pair
   \<and> trade_history_url self (Some 0) pair
         = C_API_URL self @ ''/trades/history?trading_pair='' @ pair
   \<and> (0 < n \<longrightarrow> trade_history_url self (Some n) pair
         = C_API_URL self @ ''/trades/history?trading_pair='' @ pair @ ''&since_tid='' @ str_int n)
   \<and> (py_lt (api_credits self) 3 \<noteq> Inl TypeError \<longrightarrow>
         map req_url (sent (snd (snd (get_public_trade_history P self since_tid pair w))))
           = map req_url (sent w) @ [trade_history_url self since_tid pair])"
proof (intro conjI impI)
  assume "py_lt (api_credits self) 3 \<noteq> Inl TypeError"
  then obtain low where "py_lt (api_credits self) 3 = Inr low"
    by (cases "api_credits self" "3::int" rule: py_lt_cases) auto
  then show "map req_url (sent (snd (snd (get_public_trade_history P self since_tid pair w))))
           = map req_url (sent w) @ [trade_history_url self since_tid pair]"
    unfolding get_public_trade_history_def by (rule query_sent)
qed (simp_all add: trade_history_url_def)

theorem trade_history_request_url_witness:
  "(0::int) < 7
   \<and> trade_history_url (BCdeSession ''k'' ''s'' (JNum 20)) (Some 7) ''btceur''
        = ''https://api.bitcoin.de/v2/trades/history?trading_pair=btceur&since_tid=7''
   \<and> py_lt (api_credits (BCdeSession ''k'' ''s'' (JNum 20))) 3 \<noteq> Inl TypeError
   \<and> map req_url (sent (snd (snd (get_public_trade_history (host net_down tz_utc)
          (BCdeSession ''k'' ''s'' (JNum 20)) (Some 7) ''btceur'' w0))))
        = [''https://api.bitcoin.de/v2/trades/history?trading_pair=btceur&since_tid=7'']"
proof -
  have s: "str_int 7 = ''7''" by code_simp
  have c: "py_lt (api_credits (BCdeSession ''k'' ''s'' (JNum 20))) 3 \<noteq> Inl TypeError"
    by (simp add: BCdeSession_def)
  show ?thesis
    using trade_history_request_url
      [of "BCdeSession ''k'' ''s'' (JNum 20)" "''btceur''" 7 "host net_down tz_utc" "Some 7" w0] c
    by (simp add: s BCdeSession_def w0_def)
qed

section \<open>The range check of \<open>recent_tx\<close>\<close>

text \<open>
  C9. The docstring and the error message of \<open>recent_tx\<close> give the range as [1, 50], and
  the check is \<open>max_trans not in range(51)\<close>, which lets 0 through: for
  \<open>max_trans = 0\<close> the request \<open>/recenttx/0\<close> is sent.
\<close>

theorem recent_tx_zero_is_requested:
  "sent (snd (recent_tx P (Shapeshift k) 0 w))
     = sent w @ [\<lparr>req_url = ''https://shapeshift.io/recenttx/0'', req_headers = None\<rparr>]"
proof -
  have s: "str_int 0 = ''0''" by code_simp
  show ?thesis by (simp add: recent_tx_def Shapeshift_def query_json_sent s)
qed

section \<open>The stored timestamp\<close>

text \<open>
  C5. For a row whose \<open>date\<close> is the Unix time \<open>ts\<close>, the datetime stored denotes the
  instant \<open>ts\<close> plus the host's offset from UTC at \<open>ts\<close> (or nothing is stored,
  \<open>fromtimestamp\<close> raising, when that local time lies outside the years 1 to 9999):
  \<open>fromtimestamp\<close> yields local calendar fields and \<open>replace(tzinfo=timezone.utc)\<close>
  relabels them as UTC without converting. It is the instant \<open>ts\<close> only on a host whose
  local time is UTC.
\<close>

theorem stored_instant_shifted_by_local_offset:
  "stored_instant P (JObj [(''trading_pair'', p)])
     (JObj [(''date'', JNum ts), (''tid'', a), (''price'', b), (''amount'', c)])
   = (if ts + local_utcoffset P ts < - 62135596800 \<or> 253402300799 < ts + local_utcoffset P ts
      then Inl ValueError
      else Inr (ts + local_utcoffset P ts))"
  by (simp add: stored_instant_def make_transaction_def fromtimestamp_def Let_def
      replace_tzinfo_utc_def instant_def)

lemma stored_instant_one_hour_east:
  "stored_instant (host net_down tz_cet) (batch []) (trade 5 0) = Inr 3600"
  by (simp add: stored_instant_def make_transaction_def fromtimestamp_def Let_def
      replace_tzinfo_utc_def instant_def host_def tz_cet_def batch_def trade_def)

section \<open>Failures of a request\<close>

text \<open>
  What the HTTP layer does with each kind of failure: through \<open>query_json\<close> a reply with
  a status other than 200 and a reply whose body does not decode both give \<open>None\<close>, and
  \<open>recent_tx\<close> gives \<open>None\<close> for a \<open>max_trans\<close> below 0 or above 50 and leaves the
  world untouched; when the transport fails, the exception of \<open>requests.get\<close> comes out
  of \<open>query_json\<close>.
\<close>

theorem query_json_degrades:
  "(network P w \<lparr>req_url = url, req_headers = hs\<rparr> = Reply r \<and> status_code r \<noteq> 200
      \<longrightarrow> fst (query_json P url hs w) = Inr JNull)
   \<and> (network P w \<lparr>req_url = url, req_headers = hs\<rparr> = Reply r \<and> status_code r = 200
        \<and> json_body r = None
      \<longrightarrow> fst (query_json P url hs w) = Inr JNull)
   \<and> (network P w \<lparr>req_url = url, req_headers = hs\<rparr> = Unreachable
      \<longrightarrow> fst (query_json P url hs w) = Inl RequestException)
   \<and> (max_trans < 0 \<or> 50 < max_trans \<longrightarrow> recent_tx P ss max_trans w = (Inr JNull, w))"
  by (simp add: query_json_def query_url_def requests_get_def response_ok_def recent_tx_def)

theorem query_json_degrades_witness:
  "fst (query_json (host (net_reply reply_500) tz_utc) ''u'' None w0) = Inr JNull
   \<and> fst (query_json (host (net_reply reply_garbled) tz_utc) ''u'' None w0) = Inr JNull
   \<and> fst (query_json (host net_down tz_utc) ''u'' None w0) = Inl RequestException
   \<and> recent_tx (host net_down tz_utc) (Shapeshift None) 51 w0 = (Inr JNull, w0)"
proof -
  have a: "network (host (net_reply reply_500) tz_utc) w0 \<lparr>req_url = ''u'', req_headers = None\<rparr>
             = Reply reply_500 \<and> status_code reply_500 \<noteq> 200"
    by (simp add: host_def net_reply_def reply_500_def)
  have b: "network (host (net_reply reply_garbled) tz_utc) w0 \<lparr>req_url = ''u'', req_headers = None\<rparr>
             = Reply reply_garbled \<and> status_code reply_garbled = 200 \<and> json_body reply_garbled = None"
    by (simp add: host_def net_reply_def reply_garbled_def)
  have c: "network (host net_down tz_utc) w0 \<lparr>req_url = ''u'', req_headers = None\<rparr> = Unreachable"
    by (simp add: host_def net_down_def)
  have d: "(51::int) < 0 \<or> (50::int) < 51" by simp
  show ?thesis
    using a b c d
      query_json_degrades [of "host (net_reply reply_500) tz_utc" w0 "''u''" None reply_500 51 "Shapeshift None"]
      query_json_degrades [of "host (net_reply reply_garbled) tz_utc" w0 "''u''" None reply_garbled 51 "Shapeshift None"]
      query_json_degrades [of "host net_down tz_utc" w0 "''u''" None reply_500 51 "Shapeshift None"]
    by blast
qed

text \<open>
  C3. Of the four kinds of failure the transport error is escalated: with the network
  down, \<open>get_public_trade_history\<close>, whose docstring reads "Return None on error" and
  whose caller tests the result with \<open>if new_trades:\<close>, ends in the exception that
  \<open>requests.get\<close> raised, not in \<open>None\<close>.
\<close>

theorem transport_error_reaches_caller:
  "fst (get_public_trade_history (host net_down tz_utc) (BCdeSession ''k'' ''s'' (JNum 20))
          None ''btceur'' w0) = Inl RequestException"
  by (simp add: get_public_trade_history_def query_def query_json_def query_url_def
      requests_get_def host_def net_down_def BCdeSession_def Let_def)


section \<open>The quota counter\<close>

text \<open>
  C7. Whatever the counter held before, after a \<open>query\<close> that returns a truthy parsed body
  the counter is the \<open>credits\<close> value of that body; after a call that raises or returns
  a falsy result it is what it was. A server that answers the URL with status 200 and an
  object holding \<open>credits\<close> makes the call return that object and the counter take the
  value.
\<close>

theorem query_credits_overwritten:
  "(case fst (query P self url method post_params headers w) of
      Inl e \<Rightarrow> api_credits (fst (snd (query P self url method post_params headers w)))
                 = api_credits self
    | Inr response \<Rightarrow>
        if truthy response
        then getitem response ''credits''
               = Inr (api_credits (fst (snd (query P self url method post_params headers w))))
        else api_credits (fst (snd (query P self url method post_params headers w)))
               = api_credits self)
   \<and> ((\<forall>w1 rq. req_url rq = url \<longrightarrow> network P w1 rq = Reply r) \<and> status_code r = 200
        \<and> json_body r = Some (JObj kvs) \<and> map_of kvs ''credits'' = Some c
        \<and> py_lt (api_credits self) 3 \<noteq> Inl TypeError
      \<longrightarrow> fst (query P self url method post_params headers w) = Inr (JObj kvs)
          \<and> api_credits (fst (snd (query P self url method post_params headers w))) = c)"
proof (intro conjI impI)
  show "case fst (query P self url method post_params headers w) of
      Inl e \<Rightarrow> api_credits (fst (snd (query P self url method post_params headers w)))
                 = api_credits self
    | Inr response \<Rightarrow>
        if truthy response
        then getitem response ''credits''
               = Inr (api_credits (fst (snd (query P self url method post_params headers w))))
        else api_credits (fst (snd (query P self url method post_params headers w)))
               = api_credits self"
  proof (cases "api_credits self" "3::int" rule: py_lt_cases)
    case other
    then show ?thesis by (simp add: query_raises_early)
  next
    case (num low)
    then obtain hs w1 r w2 where
      q: "query P self url method post_params headers w =
       (case r of
          Inl e \<Rightarrow> (Inl e, self, w2)
        | Inr response \<Rightarrow>
            if truthy response then
              (case getitem response ''credits'' of
                 Inl e \<Rightarrow> (Inl e, self, w2)
               | Inr c \<Rightarrow> (Inr response, self\<lparr>api_credits := c\<rparr>, w2))
            else (Inr response, self, w2))"
      by (rule query_unfold)
    show ?thesis
      unfolding q by (simp split: sum.split)
  qed
next
  assume h: "(\<forall>w1 rq. req_url rq = url \<longrightarrow> network P w1 rq = Reply r) \<and> status_code r = 200
        \<and> json_body r = Some (JObj kvs) \<and> map_of kvs ''credits'' = Some c
        \<and> py_lt (api_credits self) 3 \<noteq> Inl TypeError"
  then obtain low where "py_lt (api_credits self) 3 = Inr low"
    by (cases "api_credits self" "3::int" rule: py_lt_cases) auto
  then obtain hs w1 r' w2 where
    qj: "query_json P url (Some hs) w1 = (r', w2)" and
    q: "query P self url method post_params headers w =
       (case r' of
          Inl e \<Rightarrow> (Inl e, self, w2)
        | Inr response \<Rightarrow>
            if truthy response then
              (case getitem response ''credits'' of
                 Inl e \<Rightarrow> (Inl e, self, w2)
               | Inr c \<Rightarrow> (Inr response, self\<lparr>api_credits := c\<rparr>, w2))
            else (Inr response, self, w2))"
    by (rule query_unfold)
  from h have "network P w1 \<lparr>req_url = url, req_headers = Some hs\<rparr> = Reply r" by simp
  with h have "fst (query_json P url (Some hs) w1) = Inr (JObj kvs)"
    by (intro query_json_ok) auto
  with qj have r': "r' = Inr (JObj kvs)" by simp
  from h have ne: "kvs \<noteq> []" by auto
  show "fst (query P self url method post_params headers w) = Inr (JObj kvs)"
    unfolding q r' using h ne by simp
  show "api_credits (fst (snd (query P self url method post_params headers w))) = c"
    unfolding q r' using h ne by simp
qed



theorem query_credits_overwritten_witness:
  "fst (query (host (net_reply (reply_credits 7)) tz_utc) (BCdeSession ''k'' ''s'' (JNum 2))
          ''u'' ''GET'' None None w0) = Inr (JObj [(''credits'', JNum 7)])
   \<and> api_credits (fst (snd (query (host (net_reply (reply_credits 7)) tz_utc)
          (BCdeSession ''k'' ''s'' (JNum 2)) ''u'' ''GET'' None None w0))) = JNum 7
   \<and> fst (query (host net_down tz_utc) (BCdeSession ''k'' ''s'' (JNum 2))
          ''u'' ''GET'' None None w0) = Inl RequestException
   \<and> api_credits (fst (snd (query (host net_down tz_utc) (BCdeSession ''k'' ''s'' (JNum 2))
          ''u'' ''GET'' None None w0))) = JNum 2"
proof -
  have h: "(\<forall>w1 rq. req_url rq = ''u'' \<longrightarrow>
              network (host (net_reply (reply_credits 7)) tz_utc) w1 rq = Reply (reply_credits 7))
           \<and> status_code (reply_credits 7) = 200
           \<and> json_body (reply_credits 7) = Some (JObj [(''credits'', JNum 7)])
           \<and> map_of [(''credits'', JNum 7)] ''credits'' = Some (JNum 7)
           \<and> py_lt (api_credits (BCdeSession ''k'' ''s'' (JNum 2))) 3 \<noteq> Inl TypeError"
    by (simp add: host_def net_reply_def reply_credits_def BCdeSession_def)
  have d: "fst (query (host net_down tz_utc) (BCdeSession ''k'' ''s'' (JNum 2))
          ''u'' ''GET'' None None w0) = Inl RequestException"
    by (simp add: query_def query_json_def query_url_def requests_get_def host_def net_down_def
        BCdeSession_def Let_def)
  have s: "api_credits (BCdeSession ''k'' ''s'' (JNum 2)) = JNum 2"
    by (simp add: BCdeSession_def)
  show ?thesis
    using h d s
      query_credits_overwritten [of "host (net_reply (reply_credits 7)) tz_utc"
        "BCdeSession ''k'' ''s'' (JNum 2)" "''u''" "''GET''" None None w0 "reply_credits 7"
        "[(''credits'', JNum 7)]" "JNum 7"]
      query_credits_overwritten [of "host net_down tz_utc"
        "BCdeSession ''k'' ''s'' (JNum 2)" "''u''" "''GET''" None None w0 "reply_credits 7"
        "[(''credits'', JNum 7)]" "JNum 7"]
    by simp
qed

text \<open>
  C10. When the server answers with status 200 and a non-empty JSON object that has no
  \<open>credits\<close> key, \<open>query\<close> does not return: the subscript \<open>response["credits"]\<close>
  raises \<open>KeyError\<close>.
\<close>

theorem query_without_credits_raises_KeyError:
  assumes "\<forall>w1 rq. req_url rq = url \<longrightarrow> network P w1 rq = Reply r"
    and "status_code r = 200"
    and "json_body r = Some (JObj kvs)"
    and "kvs \<noteq> []"
    and "map_of kvs ''credits'' = None"
    and "py_lt (api_credits self) 3 \<noteq> Inl TypeError"
  shows "fst (query P self url method post_params headers w) = Inl KeyError"
proof -
  from assms(6) obtain low where "py_lt (api_credits self) 3 = Inr low"
    by (cases "api_credits self" "3::int" rule: py_lt_cases) auto
  then obtain hs w1 r' w2 where
    qj: "query_json P url (Some hs) w1 = (r', w2)" and
    q: "query P self url method post_params headers w =
       (case r' of
          Inl e \<Rightarrow> (Inl e, self, w2)
        | Inr response \<Rightarrow>
            if truthy response then
              (case getitem response ''credits'' of
                 Inl e \<Rightarrow> (Inl e, self, w2)
               | Inr c \<Rightarrow> (Inr response, self\<lparr>api_credits := c\<rparr>, w2))
            else (Inr response, self, w2))"
    by (rule query_unfold)
  from assms(1) have "network P w1 \<lparr>req_url = url, req_headers = Some hs\<rparr> = Reply r" by simp
  then have "fst (query_json P url (Some hs) w1) = Inr (JObj kvs)"
    using assms(2,3) by (rule query_json_ok)
  with qj have r': "r' = Inr (JObj kvs)" by simp
  show ?thesis unfolding q r' using assms(4,5) by simp
qed

theorem query_without_credits_raises_KeyError_witness:
  "fst (query (host (net_reply reply_no_credits) tz_utc) (BCdeSession ''k'' ''s'' (JNum 20))
          ''u'' ''GET'' None None w0) = Inl KeyError"
proof -
  have "\<forall>w1 rq. req_url rq = ''u'' \<longrightarrow>
          network (host (net_reply reply_no_credits) tz_utc) w1 rq = Reply reply_no_credits"
    by (simp add: host_def net_reply_def)
  moreover have "status_code reply_no_credits = 200"
    by (simp add: reply_no_credits_def)
  moreover have "json_body reply_no_credits = Some (JObj [(''errors'', JList [])])"
    by (simp add: reply_no_credits_def)
  moreover have "[(''errors'', JList [])] \<noteq> []" by simp
  moreover have "map_of [(''errors'', JList [])] ''credits'' = None" by simp
  moreover have "py_lt (api_credits (BCdeSession ''k'' ''s'' (JNum 20))) 3 \<noteq> Inl TypeError"
    by (simp add: BCdeSession_def)
  ultimately show ?thesis by (rule query_without_credits_raises_KeyError)
qed

text \<open>
  C8, as the code has it. The counter stays a number not below zero through any sequence
  of \<open>query\<close> calls when the value the caller supplied is one and every \<open>credits\<close>
  value the server reports is one: the code stores the reported value as it comes.
\<close>

theorem api_credits_nonneg_preserved:
  assumes "credits_nonneg (api_credits self)"
    and "\<forall>w1 rq r kvs c. network P w1 rq = Reply r \<longrightarrow> json_body r = Some (JObj kvs) \<longrightarrow>
           map_of kvs ''credits'' = Some c \<longrightarrow> credits_nonneg c"
  shows "credits_nonneg (api_credits (fst (query_calls P self calls w)))"
  using assms(1)
proof (induction calls arbitrary: self w)
  case Nil
  then show ?case by simp
next
  case (Cons c cs)
  obtain u m pp hs where c: "c = (u, m, pp, hs)"
    by (cases c)
  obtain res self' w' where q: "query P self u m pp hs w = (res, self', w')"
    by (cases "query P self u m pp hs w")
  have "credits_nonneg (api_credits self')"
    using query_keeps_nonneg [OF Cons.prems assms(2), of u m pp hs w]
    by (simp add: q)
  then have "credits_nonneg (api_credits (fst (query_calls P self' cs w')))"
    by (rule Cons.IH)
  then show ?case by (simp add: c q)
qed

theorem api_credits_nonneg_preserved_witness:
  "credits_nonneg (api_credits (BCdeSession ''k'' ''s'' (JNum 20)))
   \<and> credits_nonneg (api_credits (fst (query_calls (host (net_reply (reply_credits 5)) tz_utc)
        (BCdeSession ''k'' ''s'' (JNum 20))
        [(''u'', ''GET'', None, None), (''v'', ''GET'', None, None)] w0)))"
proof -
  have a: "credits_nonneg (api_credits (BCdeSession ''k'' ''s'' (JNum 20)))"
    by (simp add: BCdeSession_def)
  have b: "\<forall>w1 rq r kvs c. network (host (net_reply (reply_credits 5)) tz_utc) w1 rq = Reply r \<longrightarrow>
           json_body r = Some (JObj kvs) \<longrightarrow> map_of kvs ''credits'' = Some c \<longrightarrow> credits_nonneg c"
    by (auto simp: host_def net_reply_def reply_credits_def split: if_splits)
  show ?thesis
    by (rule conjI [OF a api_credits_nonneg_preserved [OF a b]])
qed

text \<open>
  C8 as stated fails: a reply that reports \<open>credits = -1\<close> leaves the counter at \<open>-1\<close>.
\<close>

theorem api_credits_negative_after_query:
  "\<not> credits_nonneg (api_credits (fst (snd (query (host (net_reply (reply_credits (- 1))) tz_utc)
        (BCdeSession ''k'' ''s'' (JNum 20)) ''u'' ''GET'' None None w0))))"
  by (simp add: query_def query_json_def query_url_def requests_get_def host_def net_reply_def
      reply_credits_def response_ok_def BCdeSession_def Let_def)



section \<open>Facts about the table and the loop\<close>

lemma keys_upsert:
  "map fst (upsert k t tbl) = (if k \<in> set (map fst tbl) then map fst tbl else map fst tbl @ [k])"
  by (induction tbl) (auto simp: upsert_def)

lemma distinct_upsert: "distinct (map fst tbl) \<Longrightarrow> distinct (map fst (upsert k t tbl))"
  by (simp add: keys_upsert)

lemma set_upsert:
  "(k', t') \<in> set (upsert k t tbl) \<Longrightarrow> (k' = k \<and> t' = t) \<or> (k' \<noteq> k \<and> (k', t') \<in> set tbl)"
  by (force simp: upsert_def split: if_splits)

lemma keyset_upsert: "fst ` set (upsert k t tbl) = insert k (fst ` set tbl)"
proof -
  have "set (map fst (upsert k t tbl)) = insert k (set (map fst tbl))"
    unfolding keys_upsert by auto
  then show ?thesis by simp
qed

lemma keys_overlay: "map fst (overlay m tbl) = map fst tbl"
  by (induction tbl) (auto simp: overlay_def split: option.split)

lemma upsert_overlay:
  "k \<in> set (map fst tbl) \<Longrightarrow> upsert k t tbl = overlay [k \<mapsto> t] tbl"
  by (auto simp: upsert_def overlay_def)

lemma overlay_overlay: "overlay m2 (overlay m1 tbl) = overlay (m1 ++ m2) tbl"
  by (induction tbl) (auto simp: overlay_def map_add_def split: option.split)

lemma overlay_id:
  "(\<And>k t. (k, t) \<in> set tbl \<Longrightarrow> m k = None \<or> m k = Some t) \<Longrightarrow> overlay m tbl = tbl"
  unfolding overlay_def
  by (rule map_idI) (force split: option.split)

lemma upserts_snoc: "upserts (krs @ [kr]) tbl = upsert (fst kr) (snd kr) (upserts krs tbl)"
  by (induction krs arbitrary: tbl) auto

lemma keys_upserts: "fst ` set (upserts krs tbl) = fst ` set krs \<union> fst ` set tbl"
  by (induction krs arbitrary: tbl) (auto simp: keyset_upsert)

lemma distinct_upserts: "distinct (map fst tbl) \<Longrightarrow> distinct (map fst (upserts krs tbl))"
  by (induction krs arbitrary: tbl) (auto simp: distinct_upsert)

lemma upserts_overlay:
  "set (map fst krs) \<subseteq> set (map fst tbl) \<Longrightarrow> upserts krs tbl = overlay (map_of (rev krs)) tbl"
proof (induction krs arbitrary: tbl)
  case Nil
  then show ?case by (simp add: overlay_def)
next
  case (Cons kr krs)
  obtain k t where kr: "kr = (k, t)" by (cases kr)
  from Cons.prems have k: "k \<in> set (map fst tbl)" by (simp add: kr)
  have sub: "set (map fst krs) \<subseteq> set (map fst (overlay [k \<mapsto> t] tbl))"
    using Cons.prems by (simp add: keys_overlay)
  have "upserts (kr # krs) tbl = upserts krs (overlay [k \<mapsto> t] tbl)"
    by (simp add: kr upsert_overlay [OF k])
  also have "\<dots> = overlay (map_of (rev krs)) (overlay [k \<mapsto> t] tbl)"
    by (rule Cons.IH [OF sub])
  also have "\<dots> = overlay ([k \<mapsto> t] ++ map_of (rev krs)) tbl"
    by (rule overlay_overlay)
  also have "[k \<mapsto> t] ++ map_of (rev krs) = map_of (rev (kr # krs))"
    by (simp add: kr)
  finally show ?case .
qed

lemma upserts_last_value:
  "(k, t) \<in> set (upserts krs tbl) \<Longrightarrow> k \<in> set (map fst krs) \<Longrightarrow> map_of (rev krs) k = Some t"
proof (induction krs arbitrary: k t rule: rev_induct)
  case Nil
  then show ?case by simp
next
  case (snoc kr krs)
  obtain k' t' where kr: "kr = (k', t')" by (cases kr)
  from snoc.prems(1) have "(k, t) \<in> set (upsert k' t' (upserts krs tbl))"
    by (simp add: upserts_snoc kr)
  then consider "k = k'" "t = t'" | "k \<noteq> k'" "(k, t) \<in> set (upserts krs tbl)"
    using set_upsert by blast
  then show ?case
  proof cases
    case 1
    then show ?thesis by (simp add: kr)
  next
    case 2
    with snoc.prems(2) have "k \<in> set (map fst krs)" by (auto simp: kr)
    with 2 have "map_of (rev krs) k = Some t" by (intro snoc.IH)
    with 2 show ?thesis by (simp add: kr)
  qed
qed

lemma upserts_idem: "upserts krs (upserts krs tbl) = upserts krs tbl"
proof -
  have "set (map fst krs) \<subseteq> set (map fst (upserts krs tbl))"
    by (simp add: keys_upserts)
  then have "upserts krs (upserts krs tbl) = overlay (map_of (rev krs)) (upserts krs tbl)"
    by (rule upserts_overlay)
  also have "\<dots> = upserts krs tbl"
  proof (rule overlay_id)
    fix k t
    assume kt: "(k, t) \<in> set (upserts krs tbl)"
    show "map_of (rev krs) k = None \<or> map_of (rev krs) k = Some t"
    proof (cases "map_of (rev krs) k")
      case None
      then show ?thesis by simp
    next
      case (Some t')
      then have "k \<in> set (map fst krs)"
        by (metis map_of_eq_None_iff option.distinct(1) set_map set_rev)
      with kt show ?thesis by (simp add: upserts_last_value)
    qed
  qed
  finally show ?thesis .
qed

lemma insert_rows_outcome:
  "(\<exists>krs. \<forall>tbl. insert_rows P new_trades rows tbl = (None, upserts krs tbl))
   \<or> (\<forall>tbl. \<exists>e tbl'. insert_rows P new_trades rows tbl = (Some e, tbl'))"
proof (induction rows)
  case Nil
  have "\<forall>tbl. insert_rows P new_trades [] tbl = (None, upserts [] tbl)" by simp
  then show ?case by blast
next
  case (Cons row rows)
  show ?case
  proof (cases "make_transaction P new_trades row")
    case (Inl e)
    then show ?thesis by simp
  next
    case t: (Inr t)
    show ?thesis
    proof (cases "pk_of P t")
      case (Inl e)
      then show ?thesis by (simp add: t save_def)
    next
      case k: (Inr k)
      have step: "insert_rows P new_trades (row # rows) tbl
                    = insert_rows P new_trades rows (upsert k t tbl)" for tbl
        by (simp add: t k save_def)
      from Cons.IH show ?thesis
      proof
        assume "\<exists>krs. \<forall>tbl. insert_rows P new_trades rows tbl = (None, upserts krs tbl)"
        then obtain krs where
          krs: "\<And>tbl. insert_rows P new_trades rows tbl = (None, upserts krs tbl)" by blast
        have "insert_rows P new_trades (row # rows) tbl = (None, upserts ((k, t) # krs) tbl)"
          for tbl
          unfolding step krs by simp
        then show ?thesis by blast
      next
        assume "\<forall>tbl. \<exists>e tbl'. insert_rows P new_trades rows tbl = (Some e, tbl')"
        then show ?thesis unfolding step by blast
      qed
    qed
  qed
qed

lemma insert_rows_all_saved:
  "insert_rows P new_trades rows tbl = (None, tbl') \<Longrightarrow>
     fst ` set tbl \<subseteq> fst ` set tbl'
     \<and> (\<forall>row \<in> set rows. \<exists>t k. make_transaction P new_trades row = Inr t \<and> pk_of P t = Inr k
            \<and> k \<in> fst ` set tbl')"
proof (induction rows arbitrary: tbl)
  case Nil
  then show ?case by simp
next
  case (Cons row rows)
  from Cons.prems obtain t where t: "make_transaction P new_trades row = Inr t"
    by (cases "make_transaction P new_trades row") auto
  from Cons.prems t obtain k where k: "pk_of P t = Inr k"
    by (cases "pk_of P t") (auto simp: save_def)
  from Cons.prems have "insert_rows P new_trades rows (upsert k t tbl) = (None, tbl')"
    by (simp add: t k save_def)
  then have ih: "fst ` set (upsert k t tbl) \<subseteq> fst ` set tbl'"
    "\<forall>row \<in> set rows. \<exists>t k. make_transaction P new_trades row = Inr t \<and> pk_of P t = Inr k
            \<and> k \<in> fst ` set tbl'"
    using Cons.IH by blast+
  from ih(1) have "k \<in> fst ` set tbl'" "fst ` set tbl \<subseteq> fst ` set tbl'"
    by (auto simp: keyset_upsert)
  with ih(2) t k show ?case by auto
qed

text \<open>A batch either fails on every table, leaving it as it was, or is a fixed list of writes.\<close>

lemma persist_outcome:
  "(\<forall>tbl. \<exists>e. persist P new_trades tbl = (Some e, tbl))
   \<or> (\<exists>krs. \<forall>tbl. persist P new_trades tbl = (None, upserts krs tbl))"
proof (cases "getitem new_trades ''trades''")
  case (Inl e)
  then show ?thesis by (simp add: persist_def atomic_def persist_loop_def)
next
  case trades: (Inr trades)
  show ?thesis
  proof (cases "py_iter trades")
    case (Inl e)
    then show ?thesis by (simp add: persist_def atomic_def persist_loop_def trades)
  next
    case rows: (Inr rows)
    have pl: "persist_loop P new_trades tbl = insert_rows P new_trades rows tbl" for tbl
      by (simp add: persist_loop_def trades rows)
    from insert_rows_outcome [of P new_trades rows] show ?thesis
    proof
      assume "\<exists>krs. \<forall>tbl. insert_rows P new_trades rows tbl = (None, upserts krs tbl)"
      then obtain krs where
        "\<And>tbl. insert_rows P new_trades rows tbl = (None, upserts krs tbl)" by blast
      then have "\<forall>tbl. persist P new_trades tbl = (None, upserts krs tbl)"
        by (simp add: persist_def atomic_def pl)
      then show ?thesis by blast
    next
      assume f: "\<forall>tbl. \<exists>e tbl'. insert_rows P new_trades rows tbl = (Some e, tbl')"
      have "\<exists>e. persist P new_trades tbl = (Some e, tbl)" for tbl
      proof -
        from f obtain e tbl' where "insert_rows P new_trades rows tbl = (Some e, tbl')" by blast
        then show ?thesis by (simp add: persist_def atomic_def pl)
      qed
      then show ?thesis by blast
    qed
  qed
qed

section \<open>Ingesting a batch again\<close>

text \<open>
  C2. Running the persisting block on a batch and then on the same batch again leaves
  the table that the first run left, for every table and every batch; and the table keeps
  one row per \<open>tid\<close>: when no key occurs twice before the run, none does after it.
\<close>

theorem persist_twice_is_once:
  "snd (persist P new_trades (snd (persist P new_trades tbl))) = snd (persist P new_trades tbl)
   \<and> (distinct (map fst tbl) \<longrightarrow> distinct (map fst (snd (persist P new_trades tbl))))"
proof -
  from persist_outcome [of P new_trades] show ?thesis
  proof
    assume f: "\<forall>tbl. \<exists>e. persist P new_trades tbl = (Some e, tbl)"
    have "snd (persist P new_trades tbl) = tbl" for tbl
    proof -
      from f obtain e where "persist P new_trades tbl = (Some e, tbl)" by blast
      then show ?thesis by simp
    qed
    then show ?thesis by simp
  next
    assume "\<exists>krs. \<forall>tbl. persist P new_trades tbl = (None, upserts krs tbl)"
    then obtain krs where "\<And>tbl. persist P new_trades tbl = (None, upserts krs tbl)" by blast
    then show ?thesis by (simp add: upserts_idem distinct_upserts)
  qed
qed

theorem persist_twice_is_once_witness:
  "distinct (map fst [stored 7 100])
   \<and> snd (persist (host net_down tz_utc) (batch [trade 7 100, trade 8 200]) [stored 7 100])
       = [stored 7 100, stored 8 200]
   \<and> snd (persist (host net_down tz_utc) (batch [trade 7 100, trade 8 200])
            [stored 7 100, stored 8 200])
       = [stored 7 100, stored 8 200]
   \<and> distinct (map fst [stored 7 100, stored 8 200])"
proof -
  have e: "snd (persist (host net_down tz_utc) (batch [trade 7 100, trade 8 200]) [stored 7 100])
       = [stored 7 100, stored 8 200]"
    by (simp add: persist_def atomic_def persist_loop_def batch_def trade_def make_transaction_def
        save_def upsert_def host_def tid_key_def tz_utc_def fromtimestamp_def Let_def
        replace_tzinfo_utc_def stored_def)
  have d: "distinct (map fst [stored 7 100])" by (simp add: stored_def)
  show ?thesis
    using e d persist_twice_is_once [of "host net_down tz_utc" "batch [trade 7 100, trade 8 200]"
        "[stored 7 100]"]
    by simp
qed



section \<open>The batch as one transaction\<close>

lemma query_json_not_200:
  "network P w \<lparr>req_url = url, req_headers = hs\<rparr> = Reply r \<Longrightarrow> status_code r \<noteq> 200 \<Longrightarrow>
     fst (query_json P url hs w) = Inr JNull"
  by (simp add: query_json_def query_url_def requests_get_def)

lemma query_not_200:
  assumes "\<forall>w1 rq. network P w1 rq = Reply r" and "status_code r \<noteq> 200"
    and "py_lt (api_credits self) 3 = Inr low"
  shows "fst (query P self url method post_params headers w) = Inr JNull"
proof -
  from assms(3) obtain hs w1 r' w2 where
    qj: "query_json P url (Some hs) w1 = (r', w2)" and
    q: "query P self url method post_params headers w =
       (case r' of
          Inl e \<Rightarrow> (Inl e, self, w2)
        | Inr response \<Rightarrow>
            if truthy response then
              (case getitem response ''credits'' of
                 Inl e \<Rightarrow> (Inl e, self, w2)
               | Inr c \<Rightarrow> (Inr response, self\<lparr>api_credits := c\<rparr>, w2))
            else (Inr response, self, w2))"
    by (rule query_unfold)
  from assms(1) have "network P w1 \<lparr>req_url = url, req_headers = Some hs\<rparr> = Reply r" by simp
  then have "fst (query_json P url (Some hs) w1) = Inr JNull"
    using assms(2) by (rule query_json_not_200)
  with qj have "r' = Inr JNull" by simp
  then show ?thesis unfolding q by simp
qed

lemma persist_failure_keeps_table:
  "fst (persist P new_trades tbl) \<noteq> None \<Longrightarrow> snd (persist P new_trades tbl) = tbl"
  by (simp add: persist_def atomic_def split: prod.splits option.splits)

lemma data_failure_keeps_table:
  "fst (data P post tbl w) \<noteq> None \<Longrightarrow> fst (snd (data P post tbl w)) = tbl"
proof -
  assume f: "fst (data P post tbl w) \<noteq> None"
  have p: "persist P nt tbl = (Some e, tbl') \<Longrightarrow> tbl' = tbl" for e nt tbl'
    using persist_failure_keeps_table [of P nt tbl] by simp
  from f show ?thesis
    unfolding data_def Let_def
    by (auto split: if_splits option.splits prod.splits sum.splits dest: p)
qed

text \<open>
  C6. The writes of a batch are atomic. When the persisting block raises, the table is
  what it was before the block; when it does not, every row of the batch has been built
  and written, its key being in the table. Whenever the ingesting part of the view
  raises, the table is unchanged; and when the server answers with a status other than
  200 (a 500, say), it raises nothing and leaves the table unchanged.
\<close>

theorem persist_all_or_nothing:
  "(fst (persist P new_trades tbl) \<noteq> None \<longrightarrow> snd (persist P new_trades tbl) = tbl)
   \<and> (fst (persist P new_trades tbl) = None \<longrightarrow>
        (\<exists>trades rows. getitem new_trades ''trades'' = Inr trades \<and> py_iter trades = Inr rows
           \<and> (\<forall>row \<in> set rows. \<exists>t k. make_transaction P new_trades row = Inr t
                 \<and> pk_of P t = Inr k \<and> k \<in> fst ` set (snd (persist P new_trades tbl)))))
   \<and> (fst (data P post tbl w) \<noteq> None \<longrightarrow> fst (snd (data P post tbl w)) = tbl)
   \<and> ((\<forall>w1 rq. network P w1 rq = Reply r) \<and> status_code r \<noteq> 200
        \<and> map_of post ''key'' = Some key \<and> map_of post ''sec'' = Some sec
      \<longrightarrow> fst (data P post tbl w) = None \<and> fst (snd (data P post tbl w)) = tbl)"
proof (intro conjI impI)
  assume "fst (persist P new_trades tbl) \<noteq> None"
  then show "snd (persist P new_trades tbl) = tbl" by (rule persist_failure_keeps_table)
next
  assume ok: "fst (persist P new_trades tbl) = None"
  then obtain trades where trades: "getitem new_trades ''trades'' = Inr trades"
    by (cases "getitem new_trades ''trades''")
       (auto simp: persist_def atomic_def persist_loop_def)
  from ok trades obtain rows where rows: "py_iter trades = Inr rows"
    by (cases "py_iter trades") (auto simp: persist_def atomic_def persist_loop_def)
  obtain e tbl' where ir: "insert_rows P new_trades rows tbl = (e, tbl')"
    by (cases "insert_rows P new_trades rows tbl")
  from ok have e: "e = None"
    by (cases e) (auto simp: persist_def atomic_def persist_loop_def trades rows ir)
  then have p: "snd (persist P new_trades tbl) = tbl'"
    by (simp add: persist_def atomic_def persist_loop_def trades rows ir)
  from ir e have "\<forall>row \<in> set rows. \<exists>t k. make_transaction P new_trades row = Inr t
                 \<and> pk_of P t = Inr k \<and> k \<in> fst ` set tbl'"
    using insert_rows_all_saved [of P new_trades rows tbl tbl'] by simp
  with trades rows p show "\<exists>trades rows. getitem new_trades ''trades'' = Inr trades
           \<and> py_iter trades = Inr rows
           \<and> (\<forall>row \<in> set rows. \<exists>t k. make_transaction P new_trades row = Inr t
                 \<and> pk_of P t = Inr k \<and> k \<in> fst ` set (snd (persist P new_trades tbl)))"
    by simp
next
  assume "fst (data P post tbl w) \<noteq> None"
  then show "fst (snd (data P post tbl w)) = tbl" by (rule data_failure_keeps_table)
next
  assume h: "(\<forall>w1 rq. network P w1 rq = Reply r) \<and> status_code r \<noteq> 200
        \<and> map_of post ''key'' = Some key \<and> map_of post ''sec'' = Some sec"
  then have ne: "post \<noteq> []" by auto
  have q: "fst (get_public_trade_history P (BCdeSession key sec (JNum 20)) (max_tid tbl)
                  ''btceur'' w) = Inr JNull"
    unfolding get_public_trade_history_def
    using h by (intro query_not_200 [where low = False]) (auto simp: BCdeSession_def)
  show "fst (data P post tbl w) = None"
    using h ne q unfolding data_def Let_def
    by (auto split: prod.splits sum.splits)
  show "fst (snd (data P post tbl w)) = tbl"
    using h ne q unfolding data_def Let_def
    by (auto split: prod.splits sum.splits)
qed

theorem persist_all_or_nothing_witness:
  "persist_loop (host net_down tz_utc) (batch [trade 5 0, JObj []]) [stored 7 0]
     = (Some KeyError, [stored 7 0, stored 5 0])
   \<and> persist (host net_down tz_utc) (batch [trade 5 0, JObj []]) [stored 7 0]
     = (Some KeyError, [stored 7 0])
   \<and> fst (persist (host net_down tz_utc) (batch [trade 5 0, trade 6 10]) [stored 7 0]) = None
   \<and> (\<exists>t. make_transaction (host net_down tz_utc) (batch [trade 5 0, trade 6 10]) (trade 6 10) = Inr t
          \<and> pk_of (host net_down tz_utc) t = Inr 6)
   \<and> 6 \<in> fst ` set (snd (persist (host net_down tz_utc) (batch [trade 5 0, trade 6 10]) [stored 7 0]))
   \<and> data (host (net_reply reply_500) tz_utc) [(''key'', ''k''), (''sec'', ''s'')] [stored 7 0] w0
       = (None, [stored 7 0],
          snd (snd (data (host (net_reply reply_500) tz_utc) [(''key'', ''k''), (''sec'', ''s'')]
                      [stored 7 0] w0)))
   \<and> fst (data (host net_down tz_utc) [(''key'', ''k''), (''sec'', ''s'')] [stored 7 0] w0)
       = Some RequestException
   \<and> fst (snd (data (host net_down tz_utc) [(''key'', ''k''), (''sec'', ''s'')] [stored 7 0] w0))
       = [stored 7 0]"
proof -
  let ?H = "host net_down tz_utc"
  let ?bad = "batch [trade 5 0, JObj []]"
  let ?good = "batch [trade 5 0, trade 6 10]"
  let ?post = "[(''key'', ''k''), (''sec'', ''s'')]"
  have loop: "persist_loop ?H ?bad [stored 7 0] = (Some KeyError, [stored 7 0, stored 5 0])"
    by code_simp
  have bad: "fst (persist ?H ?bad [stored 7 0]) = Some KeyError"
    by code_simp
  have good: "fst (persist ?H ?good [stored 7 0]) = None"
    by code_simp
  have rows: "getitem ?good ''trades'' = Inr (JList [trade 5 0, trade 6 10])"
    "py_iter (JList [trade 5 0, trade 6 10]) = Inr [trade 5 0, trade 6 10]"
    by (simp_all add: batch_def)
  have mk: "make_transaction ?H ?good (trade 6 10) = Inr (snd (stored 6 10))"
    by (simp add: make_transaction_def batch_def trade_def host_def tz_utc_def fromtimestamp_def Let_def
        replace_tzinfo_utc_def stored_def)
  have pk: "pk_of ?H (snd (stored 6 10)) = Inr 6"
    by (simp add: host_def tid_key_def stored_def)
  have down: "fst (data ?H ?post [stored 7 0] w0) = Some RequestException"
    by code_simp
  have srv: "(\<forall>w1 rq. network (host (net_reply reply_500) tz_utc) w1 rq = Reply reply_500)
      \<and> status_code reply_500 \<noteq> 200
      \<and> map_of ?post ''key'' = Some ''k'' \<and> map_of ?post ''sec'' = Some ''s''"
    by (simp add: host_def net_reply_def reply_500_def)
  note a = persist_all_or_nothing [of ?H ?bad "[stored 7 0]" ?post w0 reply_500 "''k''" "''s''"]
  note b = persist_all_or_nothing [of ?H ?good "[stored 7 0]" ?post w0 reply_500 "''k''" "''s''"]
  note c = persist_all_or_nothing [of "host (net_reply reply_500) tz_utc" ?good "[stored 7 0]"
              ?post w0 reply_500 "''k''" "''s''"]
  from a bad have 1: "persist ?H ?bad [stored 7 0] = (Some KeyError, [stored 7 0])"
    by (simp add: prod_eq_iff)
  from b good rows mk pk
  have 2: "6 \<in> fst ` set (snd (persist ?H ?good [stored 7 0]))"
    by auto
  from a down have 3: "fst (snd (data ?H ?post [stored 7 0] w0)) = [stored 7 0]"
    by simp
  from c srv have 4: "data (host (net_reply reply_500) tz_utc) ?post [stored 7 0] w0
       = (None, [stored 7 0],
          snd (snd (data (host (net_reply reply_500) tz_utc) ?post [stored 7 0] w0)))"
    by (simp add: prod_eq_iff)
  from mk pk have 5: "\<exists>t. make_transaction ?H ?good (trade 6 10) = Inr t \<and> pk_of ?H t = Inr 6"
    by blast
  from loop 1 good 5 2 4 down 3 show ?thesis by blast
qed


end
